theory Spec2Isabelle
  imports Main "HOL-Library.Sublist"
begin

text \<open>
  The lookup layer of wikimapper: the class \<^verbatim>\<open>WikiMapper\<close> of \<^verbatim>\<open>mapper.py\<close>,
  which answers four queries from a precomputed SQLite table \<^verbatim>\<open>mapping\<close>. The
  table is a list of rows in retrieval order, the three \<^verbatim>\<open>SELECT\<close> statements of
  the source are functions on that list, and each method is a function from the
  state (the store and the object's attribute) to its result and the state after
  the call, with Python's exceptions as values.
\<close>

section \<open>The Index Store\<close>

text \<open>
  Modelled from the spec: the schema of table \<^verbatim>\<open>mapping\<close> is created outside
  \<^verbatim>\<open>mapper.py\<close>. Following the spec's MappingRecord, a row has a title and a page id,
  both strings, and a wikidata id that may be NULL. Strings are lists of bytes (UTF-8),
  which is what the storage engine compares.
\<close>

record row =
  wikipedia_id :: string
  wikipedia_title :: string
  wikidata_id :: "string option"

text \<open>
  The program state a call can see: the only attribute of the \<^verbatim>\<open>WikiMapper\<close> object
  (\<^verbatim>\<open>self._path_to_db\<close>) and the rows of table \<^verbatim>\<open>mapping\<close> of the database at
  that path, in the order in which a scan retrieves them.
\<close>

record world =
  path_to_db :: string
  mapping :: "row list"

subsection \<open>The three SELECT statements\<close>

text \<open>
  The collation NOCASE of the storage engine folds the 26 upper case letters of ASCII
  to lower case and compares the results byte by byte.
\<close>

definition nocase_fold :: "char \<Rightarrow> char" where
  "nocase_fold c =
     (case map_of (zip ''ABCDEFGHIJKLMNOPQRSTUVWXYZ'' ''abcdefghijklmnopqrstuvwxyz'') c of
        None \<Rightarrow> c
      | Some l \<Rightarrow> l)"

definition nocase_eq :: "string \<Rightarrow> string \<Rightarrow> bool" where
  "nocase_eq a b = (map nocase_fold a = map nocase_fold b)"

text \<open>
  \<^verbatim>\<open>SELECT DISTINCT\<close> emits a value the first time the scan meets it and drops its
  later repetitions (NULL counts as one value).
\<close>

fun distinct_first :: "'a list \<Rightarrow> 'a list \<Rightarrow> 'a list" where
  "distinct_first seen [] = []"
| "distinct_first seen (x # xs) =
     (if x \<in> set seen then distinct_first seen xs
      else x # distinct_first (x # seen) xs)"

text \<open>\<^verbatim>\<open>SELECT wikidata_id FROM mapping WHERE wikipedia_title=? [COLLATE NOCASE]\<close>\<close>

definition title_matches :: "bool \<Rightarrow> string \<Rightarrow> row \<Rightarrow> bool" where
  "title_matches uncased page_title r =
     (if uncased then nocase_eq (wikipedia_title r) page_title
      else wikipedia_title r = page_title)"

definition select_wikidata_id_by_title :: "row list \<Rightarrow> string \<Rightarrow> bool \<Rightarrow> string option list" where
  "select_wikidata_id_by_title rows page_title uncased =
     map wikidata_id (filter (title_matches uncased page_title) rows)"

text \<open>\<^verbatim>\<open>SELECT DISTINCT wikipedia_title FROM mapping WHERE wikidata_id =?\<close>\<close>

definition select_distinct_title_by_wikidata_id :: "row list \<Rightarrow> string \<Rightarrow> string list" where
  "select_distinct_title_by_wikidata_id rows d =
     distinct_first [] (map wikipedia_title (filter (\<lambda>r. wikidata_id r = Some d) rows))"

text \<open>\<^verbatim>\<open>SELECT DISTINCT wikidata_id FROM mapping WHERE wikipedia_id =?\<close>\<close>

definition select_distinct_wikidata_id_by_wikipedia_id :: "row list \<Rightarrow> string \<Rightarrow> string option list" where
  "select_distinct_wikidata_id_by_wikipedia_id rows p =
     distinct_first [] (map wikidata_id (filter (\<lambda>r. wikipedia_id r = p) rows))"

text \<open>
  \<^verbatim>\<open>with sqlite3.connect(self._path_to_db) as conn: c = conn.cursor(); c.execute(...);
  results = c.fetchall()\<close>: the statement is evaluated on the rows of the store, and
  leaving the block commits a transaction in which nothing was written. The database
  is taken to open; a failure to open it is outside this model.
\<close>

definition fetchall :: "(row list \<Rightarrow> 'a) \<Rightarrow> world \<Rightarrow> 'a \<times> world" where
  "fetchall statement w = (statement (mapping w), w)"

section \<open>The Mapper Service\<close>

datatype error = StopIteration | IndexError

text \<open>Python's truth value of a fetched cell: \<^verbatim>\<open>None\<close> and \<^verbatim>\<open>''\<close> are false.\<close>

fun truthy :: "string option \<Rightarrow> bool" where
  "truthy None = False"
| "truthy (Some s) = (s \<noteq> [])"

text \<open>\<^verbatim>\<open>next(it)\<close> without a default raises \<^verbatim>\<open>StopIteration\<close> on an exhausted iterator.\<close>

fun py_next :: "'a list \<Rightarrow> error + 'a" where
  "py_next [] = Inl StopIteration"
| "py_next (x # xs) = Inr x"

definition title_to_id :: "world \<Rightarrow> string \<Rightarrow> bool \<Rightarrow> (error + string option) \<times> world" where
  "title_to_id w page_title uncased =
     (let (results, w') = fetchall (\<lambda>rows. select_wikidata_id_by_title rows page_title uncased) w
      in if length results = 0 then (Inr None, w')
         else if list_ex truthy results then (py_next (filter truthy results), w')
         else (Inr None, w'))"

text \<open>
  \<^verbatim>\<open>str.rsplit(sep, maxsplit)\<close> for a separator of one character: the string is
  scanned from its right end (the third argument is the part not yet scanned,
  reversed; the fourth the piece being collected), and after \<^verbatim>\<open>maxsplit\<close> cuts
  what is left is one piece.
\<close>

fun rsplit_scan :: "char \<Rightarrow> nat \<Rightarrow> string \<Rightarrow> string \<Rightarrow> string list" where
  "rsplit_scan sep n [] piece = [piece]"
| "rsplit_scan sep n (c # cs) piece =
     (if n = 0 then [rev (c # cs) @ piece]
      else if c = sep then rsplit_scan sep (n - 1) cs [] @ [piece]
      else rsplit_scan sep n cs (c # piece))"

definition rsplit :: "string \<Rightarrow> char \<Rightarrow> nat \<Rightarrow> string list" where
  "rsplit s sep maxsplit = rsplit_scan sep maxsplit (rev s) []"

text \<open>\<^verbatim>\<open>xs[-1]\<close> raises \<^verbatim>\<open>IndexError\<close> on an empty list.\<close>

definition getitem_last :: "'a list \<Rightarrow> error + 'a" where
  "getitem_last xs = (case xs of [] \<Rightarrow> Inl IndexError | _ # _ \<Rightarrow> Inr (last xs))"

definition url_to_id :: "world \<Rightarrow> string \<Rightarrow> (error + string option) \<times> world" where
  "url_to_id w wiki_url =
     (case getitem_last (rsplit wiki_url (CHR ''/'') 1) of
        Inl e \<Rightarrow> (Inl e, w)
      | Inr title \<Rightarrow> title_to_id w title False)"

definition id_to_titles :: "world \<Rightarrow> string \<Rightarrow> string list \<times> world" where
  "id_to_titles w d =
     (let (results, w') = fetchall (\<lambda>rows. select_distinct_title_by_wikidata_id rows d) w
      in (results, w'))"

text \<open>
  \<^verbatim>\<open>if len(results) == 0: return None else: return results[0][0]\<close>: the test
  for the empty list and the read of the first fetched 1-tuple are one case
  distinction on \<open>results\<close>.
\<close>

definition pid_to_id :: "world \<Rightarrow> string \<Rightarrow> string option \<times> world" where
  "pid_to_id w p =
     (let (results, w') = fetchall (\<lambda>rows. select_distinct_wikidata_id_by_wikipedia_id rows p) w
      in (case results of [] \<Rightarrow> (None, w') | x # _ \<Rightarrow> (x, w')))"

section \<open>The disambiguation rule in the spec's words\<close>


section \<open>Example stores\<close>

text \<open>
Small stores on which the theorems below are exercised. The page id \<open>339\<close> with
\<open>Q132524\<close> and the title \<open>Manatee\<close> are the examples of the docstrings of
\<^verbatim>\<open>mapper.py\<close>.
\<close>

abbreviation redirect_world :: world where
  "redirect_world \<equiv>
     \<lparr>path_to_db = ''index.db'',
      mapping = [\<lparr>wikipedia_id = ''339'', wikipedia_title = ''Ayn_Rand'', wikidata_id = Some ''Q132524''\<rparr>,
                 \<lparr>wikipedia_id = ''18842'', wikipedia_title = ''Manatee'', wikidata_id = Some ''Q42797''\<rparr>,
                 \<lparr>wikipedia_id = ''20001'', wikipedia_title = ''Sea_cow'', wikidata_id = Some ''Q42797''\<rparr>,
                 \<lparr>wikipedia_id = ''20002'', wikipedia_title = ''Manatee'', wikidata_id = Some ''Q42797''\<rparr>]\<rparr>"


abbreviation empty_or_null_world :: world where
  "empty_or_null_world \<equiv>
     \<lparr>path_to_db = ''index.db'',
      mapping = [\<lparr>wikipedia_id = ''1'', wikipedia_title = ''T'', wikidata_id = Some []\<rparr>,
                 \<lparr>wikipedia_id = ''2'', wikipedia_title = ''T'', wikidata_id = None\<rparr>,
                 \<lparr>wikipedia_id = ''3'', wikipedia_title = ''U'', wikidata_id = Some ''Q2''\<rparr>]\<rparr>"

abbreviation null_first_world :: world where
  "null_first_world \<equiv>
     \<lparr>path_to_db = ''index.db'',
      mapping = [\<lparr>wikipedia_id = ''1'', wikipedia_title = ''T'', wikidata_id = None\<rparr>,
                 \<lparr>wikipedia_id = ''2'', wikipedia_title = ''U'', wikidata_id = Some ''Q2''\<rparr>,
                 \<lparr>wikipedia_id = ''3'', wikipedia_title = ''T'', wikidata_id = Some ''Q1''\<rparr>]\<rparr>"

abbreviation q1_first_world :: world where
  "q1_first_world \<equiv>
     \<lparr>path_to_db = ''index.db'',
      mapping = [\<lparr>wikipedia_id = ''3'', wikipedia_title = ''T'', wikidata_id = Some ''Q1''\<rparr>,
                 \<lparr>wikipedia_id = ''2'', wikipedia_title = ''U'', wikidata_id = Some ''Q2''\<rparr>,
                 \<lparr>wikipedia_id = ''1'', wikipedia_title = ''T'', wikidata_id = None\<rparr>]\<rparr>"

abbreviation null_pid_world :: world where
  "null_pid_world \<equiv>
     \<lparr>path_to_db = ''index.db'',
      mapping = [\<lparr>wikipedia_id = ''7'', wikipedia_title = ''A'', wikidata_id = None\<rparr>,
                 \<lparr>wikipedia_id = ''7'', wikipedia_title = ''A'', wikidata_id = Some ''Q1''\<rparr>]\<rparr>"

section \<open>Auxiliary facts\<close>

subsection \<open>What a call returns and what it leaves behind\<close>


lemma title_to_id_fst:
  "fst (title_to_id w t u) =
     Inr (case filter truthy (select_wikidata_id_by_title (mapping w) t u) of
            [] \<Rightarrow> None | v # _ \<Rightarrow> v)"
proof (cases "filter truthy (select_wikidata_id_by_title (mapping w) t u)")
  case Nil
  then have "\<not> list_ex truthy (select_wikidata_id_by_title (mapping w) t u)"
    by (simp add: list_ex_iff filter_empty_conv)
  with Nil show ?thesis
    by (simp add: title_to_id_def fetchall_def Let_def)
next
  case (Cons v vs)
  then have ex: "list_ex truthy (select_wikidata_id_by_title (mapping w) t u)"
    by (metis filter_empty_conv list.distinct(1) list_ex_iff)
  then have "select_wikidata_id_by_title (mapping w) t u \<noteq> []" by auto
  with Cons ex show ?thesis
    by (simp add: title_to_id_def fetchall_def Let_def)
qed

lemma title_to_id_returns: "\<exists>v. fst (title_to_id w t u) = Inr v"
  by (simp add: title_to_id_fst)


lemma title_matches_cased: "title_matches False T = (\<lambda>r. wikipedia_title r = T)"
  by (rule ext) (simp add: title_matches_def)

lemma id_to_titles_fst:
  "fst (id_to_titles w D) = select_distinct_title_by_wikidata_id (mapping w) D"
  by (simp add: id_to_titles_def fetchall_def)

lemma pid_to_id_fst:
  "fst (pid_to_id w P) =
     (case select_distinct_wikidata_id_by_wikipedia_id (mapping w) P of
        [] \<Rightarrow> None | x # _ \<Rightarrow> x)"
  by (simp add: pid_to_id_def fetchall_def split: list.split)

subsection \<open>SELECT DISTINCT keeps first occurrences\<close>

lemma distinct_first_set: "set (distinct_first seen xs) = set xs - set seen"
  by (induction seen xs rule: distinct_first.induct) auto

lemma distinct_first_distinct: "distinct (distinct_first seen xs)"
  by (induction seen xs rule: distinct_first.induct) (auto simp: distinct_first_set)

lemma distinct_first_subseq: "subseq (distinct_first seen xs) xs"
  by (induction seen xs rule: distinct_first.induct) auto

lemma remdups_snoc:
  "remdups (ys @ [x]) = filter (\<lambda>y. y \<noteq> x) (remdups ys) @ [x]"
  by (induction ys) auto

lemma distinct_first_remdups:
  "distinct_first seen xs = rev (remdups (rev (filter (\<lambda>x. x \<notin> set seen) xs)))"
proof (induction seen xs rule: distinct_first.induct)
  case (1 seen)
  show ?case by simp
next
  case (2 seen x xs)
  show ?case
  proof (cases "x \<in> set seen")
    case True
    with 2 show ?thesis by simp
  next
    case False
    have "filter (\<lambda>y. y \<notin> set (x # seen)) xs =
          filter (\<lambda>y. y \<noteq> x) (filter (\<lambda>y. y \<notin> set seen) xs)"
      by (auto intro: filter_cong)
    with False 2 show ?thesis
      by (simp add: remdups_snoc remdups_filter rev_filter conj_commute)
  qed
qed

subsection \<open>The last piece of a right split\<close>

lemma rsplit_scan_last:
  "last (rsplit_scan sep (Suc n) xs piece) = rev (takeWhile (\<lambda>c. c \<noteq> sep) xs) @ piece"
  by (induction xs arbitrary: piece) auto

lemma rsplit_scan_nonempty: "rsplit_scan sep n xs piece \<noteq> []"
  by (induction xs arbitrary: piece n) auto

lemma getitem_last_nonempty: "xs \<noteq> [] \<Longrightarrow> getitem_last xs = Inr (last xs)"
  by (cases xs) (simp_all add: getitem_last_def)

lemma getitem_last_rsplit:
  "getitem_last (rsplit u sep 1) = Inr (rev (takeWhile (\<lambda>c. c \<noteq> sep) (rev u)))"
proof -
  have ne: "rsplit u sep 1 \<noteq> []"
    unfolding rsplit_def by (rule rsplit_scan_nonempty)
  have "last (rsplit u sep 1) = rev (takeWhile (\<lambda>c. c \<noteq> sep) (rev u)) @ []"
    unfolding rsplit_def One_nat_def by (rule rsplit_scan_last)
  with getitem_last_nonempty [OF ne] show ?thesis by simp
qed

lemma url_to_id_segment:
  "url_to_id w u = title_to_id w (rev (takeWhile (\<lambda>c. c \<noteq> CHR ''/'') (rev u))) False"
  by (simp only: url_to_id_def getitem_last_rsplit sum.case)

lemma segment_after_slash:
  "sep \<notin> set s \<Longrightarrow> rev (takeWhile (\<lambda>c. c \<noteq> sep) (rev (p @ sep # s))) = s"
proof -
  assume "sep \<notin> set s"
  then have "takeWhile (\<lambda>c. c \<noteq> sep) (rev s @ sep # rev p) = rev s"
    by (induction s rule: rev_induct) auto
  then show ?thesis by simp
qed

lemma segment_no_slash:
  "sep \<notin> set u \<Longrightarrow> rev (takeWhile (\<lambda>c. c \<noteq> sep) (rev u)) = u"
proof -
  assume "sep \<notin> set u"
  then have "takeWhile (\<lambda>c. c \<noteq> sep) (rev u) = rev u"
    by (auto simp: takeWhile_eq_all_conv)
  then show ?thesis by (simp only: rev_rev_ident)
qed

section \<open>Claims\<close>

subsection \<open>title_to_id\<close>




text \<open>
Claim C5. For a title with exactly two matching rows, one with a null wikidata id
and one with the wikidata id \<open>Q1\<close>, \<open>title_to_id\<close> returns \<open>Q1\<close> in both
retrieval orders of the two rows.
\<close>

theorem title_to_id_null_and_Q1:
  "map wikidata_id (filter (\<lambda>r. wikipedia_title r = T) (mapping w)) = [None, Some ''Q1'']
   \<or> map wikidata_id (filter (\<lambda>r. wikipedia_title r = T) (mapping w)) = [Some ''Q1'', None]
   \<Longrightarrow> fst (title_to_id w T False) = Inr (Some ''Q1'')"
proof -
  assume "map wikidata_id (filter (\<lambda>r. wikipedia_title r = T) (mapping w)) = [None, Some ''Q1'']
   \<or> map wikidata_id (filter (\<lambda>r. wikipedia_title r = T) (mapping w)) = [Some ''Q1'', None]"
  then have "select_wikidata_id_by_title (mapping w) T False = [None, Some ''Q1'']
     \<or> select_wikidata_id_by_title (mapping w) T False = [Some ''Q1'', None]"
    by (simp add: select_wikidata_id_by_title_def title_matches_cased)
  then show ?thesis
    by (auto simp: title_to_id_fst)
qed

theorem title_to_id_null_and_Q1_witness:
  "fst (title_to_id null_first_world ''T'' False) = Inr (Some ''Q1'')
   \<and> fst (title_to_id q1_first_world ''T'' False) = Inr (Some ''Q1'')
   \<and> map wikidata_id (filter (\<lambda>r. wikipedia_title r = ''T'') (mapping null_first_world))
       = [None, Some ''Q1'']
   \<and> map wikidata_id (filter (\<lambda>r. wikipedia_title r = ''T'') (mapping q1_first_world))
       = [Some ''Q1'', None]"
  using title_to_id_null_and_Q1 [of "''T''" null_first_world]
    title_to_id_null_and_Q1 [of "''T''" q1_first_world]
  by simp



text \<open>
Claim C9. \<open>title_to_id\<close> treats an empty-string wikidata id like a null one: when
every matching row (cased or uncased matching) carries a null or an empty-string
wikidata id it returns \<open>None\<close>, and it never returns the empty string.
\<close>

theorem title_to_id_empty_like_null:
  "((\<forall>r \<in> set (mapping w). title_matches u T r \<longrightarrow>
        wikidata_id r = None \<or> wikidata_id r = Some [])
      \<longrightarrow> fst (title_to_id w T u) = Inr None)
   \<and> fst (title_to_id w T u) \<noteq> Inr (Some [])"
proof -
  let ?vs = "select_wikidata_id_by_title (mapping w) T u"
  have a: "fst (title_to_id w T u) = Inr None"
    if "\<forall>r \<in> set (mapping w). title_matches u T r \<longrightarrow>
        wikidata_id r = None \<or> wikidata_id r = Some []"
  proof -
    from that have "filter truthy ?vs = []"
      by (auto simp: filter_empty_conv select_wikidata_id_by_title_def)
    then show ?thesis by (simp add: title_to_id_fst)
  qed
  have b: "fst (title_to_id w T u) \<noteq> Inr (Some [])"
  proof (cases "filter truthy ?vs")
    case Nil
    then show ?thesis by (simp add: title_to_id_fst)
  next
    case (Cons v vs)
    then have "v \<in> set (filter truthy ?vs)" by simp
    then have "truthy v" by simp
    then have "v \<noteq> Some []" by auto
    with Cons show ?thesis by (simp add: title_to_id_fst)
  qed
  from a b show ?thesis by blast
qed

theorem title_to_id_empty_like_null_witness:
  "fst (title_to_id empty_or_null_world ''T'' False) = Inr None
   \<and> fst (title_to_id empty_or_null_world ''t'' True) = Inr None"
  using title_to_id_empty_like_null [of empty_or_null_world False "''T''"]
    title_to_id_empty_like_null [of empty_or_null_world True "''t''"]
  by (simp add: title_matches_def nocase_eq_def nocase_fold_def)

subsection \<open>url_to_id\<close>

text \<open>
Claim C4. For every URL, \<open>url_to_id\<close> is \<open>title_to_id\<close>, with case-sensitive
matching, of the substring after the last \<open>/\<close>: whatever stands before a \<open>/\<close>
that is followed by a slash-free string \<open>s\<close>, the result is that of \<open>s\<close>. In
particular \<open>https://en.wikipedia.org/wiki/Manatee\<close> is looked up as \<open>Manatee\<close>.
\<close>

theorem url_to_id_last_segment:
  "(\<forall>p s. CHR ''/'' \<notin> set s \<longrightarrow> url_to_id w (p @ CHR ''/'' # s) = title_to_id w s False)
   \<and> url_to_id w ''https://en.wikipedia.org/wiki/Manatee'' = title_to_id w ''Manatee'' False"
proof -
  have a: "url_to_id w (p @ CHR ''/'' # s) = title_to_id w s False" if "CHR ''/'' \<notin> set s" for p s
    by (simp only: url_to_id_segment segment_after_slash [OF that])
  have "url_to_id w (''https://en.wikipedia.org/wiki'' @ CHR ''/'' # ''Manatee'')
      = title_to_id w ''Manatee'' False"
    by (rule a) simp
  with a show ?thesis by simp
qed

theorem url_to_id_last_segment_witness:
  "fst (url_to_id redirect_world ''https://en.wikipedia.org/wiki/Sea_cow'') = Inr (Some ''Q42797'')
   \<and> url_to_id redirect_world ''https://en.wikipedia.org/wiki/Sea_cow''
       = title_to_id redirect_world ''Sea_cow'' False"
proof -
  have "url_to_id redirect_world (''https://en.wikipedia.org/wiki'' @ CHR ''/'' # ''Sea_cow'')
      = title_to_id redirect_world ''Sea_cow'' False"
    using url_to_id_last_segment [of redirect_world] by (simp del: append.simps)
  then show ?thesis
    by (simp add: title_to_id_fst select_wikidata_id_by_title_def title_matches_def)
qed

text \<open>
Claim C10. For every string without a \<open>/\<close>, \<open>url_to_id\<close> equals \<open>title_to_id\<close>
of the whole string: the extraction \<^verbatim>\<open>rsplit("/", 1)[-1]\<close> yields the input and
raises no \<^verbatim>\<open>IndexError\<close>, and the call returns a value.
\<close>

theorem url_to_id_no_slash:
  "CHR ''/'' \<notin> set u \<Longrightarrow>
     url_to_id w u = title_to_id w u False
     \<and> getitem_last (rsplit u (CHR ''/'') 1) = Inr u
     \<and> (\<exists>v. fst (url_to_id w u) = Inr v)"
proof -
  assume no: "CHR ''/'' \<notin> set u"
  then have seg: "rev (takeWhile (\<lambda>c. c \<noteq> CHR ''/'') (rev u)) = u"
    by (rule segment_no_slash)
  have a: "url_to_id w u = title_to_id w u False"
    by (simp only: url_to_id_segment seg)
  have b: "getitem_last (rsplit u (CHR ''/'') 1) = Inr u"
    by (simp only: getitem_last_rsplit seg)
  have "\<exists>v. fst (title_to_id w u False) = Inr v"
    by (rule title_to_id_returns)
  with a b show ?thesis by simp
qed

theorem url_to_id_no_slash_witness:
  "url_to_id redirect_world ''Manatee'' = title_to_id redirect_world ''Manatee'' False
   \<and> fst (url_to_id redirect_world ''Manatee'') = Inr (Some ''Q42797'')"
proof -
  have "url_to_id redirect_world ''Manatee'' = title_to_id redirect_world ''Manatee'' False"
    using url_to_id_no_slash [of "''Manatee''" redirect_world] by simp
  then show ?thesis
    by (simp add: title_to_id_fst select_wikidata_id_by_title_def title_matches_def)
qed

subsection \<open>id_to_titles\<close>

text \<open>
Claim C2. For every wikidata id \<open>D\<close>, \<open>id_to_titles\<close> returns the titles of the
rows whose \<open>wikidata_id\<close> equals \<open>D\<close>: a list without duplicates, holding exactly
those titles, in retrieval order (a subsequence of the matching rows' titles, each
title standing where it is first met), and the empty list when no row matches.
\<close>

theorem id_to_titles_distinct_titles:
  "distinct (fst (id_to_titles w D))
   \<and> set (fst (id_to_titles w D)) =
       {wikipedia_title r | r. r \<in> set (mapping w) \<and> wikidata_id r = Some D}
   \<and> subseq (fst (id_to_titles w D))
         (map wikipedia_title (filter (\<lambda>r. wikidata_id r = Some D) (mapping w)))
   \<and> fst (id_to_titles w D) =
       rev (remdups (rev (map wikipedia_title (filter (\<lambda>r. wikidata_id r = Some D) (mapping w)))))
   \<and> ((\<forall>r \<in> set (mapping w). wikidata_id r \<noteq> Some D) \<longrightarrow> fst (id_to_titles w D) = [])"
proof -
  let ?ts = "map wikipedia_title (filter (\<lambda>r. wikidata_id r = Some D) (mapping w))"
  have res: "fst (id_to_titles w D) = distinct_first [] ?ts"
    by (simp add: id_to_titles_fst select_distinct_title_by_wikidata_id_def)
  have d: "distinct (fst (id_to_titles w D))"
    by (simp only: res distinct_first_distinct)
  have s: "set (fst (id_to_titles w D)) =
      {wikipedia_title r | r. r \<in> set (mapping w) \<and> wikidata_id r = Some D}"
    by (auto simp: res distinct_first_set)
  have o: "subseq (fst (id_to_titles w D)) ?ts"
    by (simp only: res distinct_first_subseq)
  have f: "fst (id_to_titles w D) = rev (remdups (rev ?ts))"
    by (simp add: res distinct_first_remdups)
  have e: "fst (id_to_titles w D) = []" if "\<forall>r \<in> set (mapping w). wikidata_id r \<noteq> Some D"
  proof -
    from that have "filter (\<lambda>r. wikidata_id r = Some D) (mapping w) = []"
      by (simp add: filter_empty_conv)
    then show ?thesis by (simp add: res)
  qed
  from d s o f e show ?thesis by blast
qed

theorem id_to_titles_distinct_titles_witness:
  "fst (id_to_titles redirect_world ''Q42797'') = [''Manatee'', ''Sea_cow'']
   \<and> fst (id_to_titles redirect_world ''Q1'') = []"
  using id_to_titles_distinct_titles [of redirect_world "''Q42797''"]
    id_to_titles_distinct_titles [of redirect_world "''Q1''"]
  by simp

subsection \<open>pid_to_id\<close>

text \<open>
Claim C3. For every page id \<open>P\<close>, \<open>pid_to_id\<close> returns \<open>None\<close> when no row
matches \<open>P\<close>; when rows match it returns the first of their distinct wikidata ids,
which is the wikidata id of the first matching row; and when all matching rows carry
\<open>Q132524\<close> it returns \<open>Q132524\<close>.
\<close>

theorem pid_to_id_first_distinct:
  "((\<forall>r \<in> set (mapping w). wikipedia_id r \<noteq> P) \<longrightarrow> fst (pid_to_id w P) = None)
   \<and> (\<forall>r rs. filter (\<lambda>r. wikipedia_id r = P) (mapping w) = r # rs \<longrightarrow>
         fst (pid_to_id w P) = wikidata_id r
         \<and> fst (pid_to_id w P) = hd (rev (remdups (rev (map wikidata_id (r # rs))))))
   \<and> ((\<exists>r \<in> set (mapping w). wikipedia_id r = P)
        \<and> (\<forall>r \<in> set (mapping w). wikipedia_id r = P \<longrightarrow> wikidata_id r = Some ''Q132524'')
        \<longrightarrow> fst (pid_to_id w P) = Some ''Q132524'')"
proof -
  let ?ms = "filter (\<lambda>r. wikipedia_id r = P) (mapping w)"
  have res: "fst (pid_to_id w P) =
      (case distinct_first [] (map wikidata_id ?ms) of [] \<Rightarrow> None | x # _ \<Rightarrow> x)"
    by (simp add: pid_to_id_fst select_distinct_wikidata_id_by_wikipedia_id_def)
  have none: "fst (pid_to_id w P) = None" if "\<forall>r \<in> set (mapping w). wikipedia_id r \<noteq> P"
  proof -
    from that have "?ms = []" by (simp add: filter_empty_conv)
    then show ?thesis by (simp add: res)
  qed
  have first: "fst (pid_to_id w P) = wikidata_id r
      \<and> fst (pid_to_id w P) = hd (rev (remdups (rev (map wikidata_id (r # rs)))))"
    if "?ms = r # rs" for r rs
  proof -
    from that have a: "fst (pid_to_id w P) = wikidata_id r" by (simp add: res)
    have "distinct_first [] (map wikidata_id (r # rs)) = rev (remdups (rev (map wikidata_id (r # rs))))"
      by (simp only: distinct_first_remdups) simp
    then have "hd (rev (remdups (rev (map wikidata_id (r # rs))))) = wikidata_id r"
      by (metis distinct_first.simps(2) empty_iff list.sel(1) list.simps(9) set_empty2)
    with a show ?thesis by simp
  qed
  have q: "fst (pid_to_id w P) = Some ''Q132524''"
    if "\<exists>r \<in> set (mapping w). wikipedia_id r = P"
      and "\<forall>r \<in> set (mapping w). wikipedia_id r = P \<longrightarrow> wikidata_id r = Some ''Q132524''"
  proof -
    from that(1) have "?ms \<noteq> []" by (simp add: filter_empty_conv)
    then obtain r rs where ms: "?ms = r # rs" by (cases ?ms) auto
    then have "r \<in> set ?ms" by simp
    then have "r \<in> set (mapping w)" "wikipedia_id r = P" by auto
    with that(2) have "wikidata_id r = Some ''Q132524''" by blast
    with first [OF ms] show ?thesis by simp
  qed
  from none first q show ?thesis by blast
qed

theorem pid_to_id_first_distinct_witness:
  "fst (pid_to_id redirect_world ''339'') = Some ''Q132524''
   \<and> fst (pid_to_id redirect_world ''340'') = None"
  using pid_to_id_first_distinct [of redirect_world "''339''"]
    pid_to_id_first_distinct [of redirect_world "''340''"]
  by simp

text \<open>
Claim C8. \<open>pid_to_id\<close> does not skip null values: when the first matching row, or
equally the first of the distinct wikidata ids of the matching rows, is null, it
returns \<open>None\<close>, whatever the later rows carry. On the store of the witness a
later row of the same page id carries \<open>Q1\<close>, which \<open>title_to_id\<close> does return for
the title of these rows.
\<close>

theorem pid_to_id_keeps_null:
  "(\<forall>r rs. filter (\<lambda>r. wikipedia_id r = P) (mapping w) = r # rs \<and> wikidata_id r = None \<longrightarrow>
       fst (pid_to_id w P) = None)
   \<and> (\<forall>vs. rev (remdups (rev (map wikidata_id (filter (\<lambda>r. wikipedia_id r = P) (mapping w)))))
              = None # vs \<longrightarrow> fst (pid_to_id w P) = None)"
proof -
  let ?ms = "filter (\<lambda>r. wikipedia_id r = P) (mapping w)"
  have res: "fst (pid_to_id w P) =
      (case distinct_first [] (map wikidata_id ?ms) of [] \<Rightarrow> None | x # _ \<Rightarrow> x)"
    by (simp add: pid_to_id_fst select_distinct_wikidata_id_by_wikipedia_id_def)
  have a: "fst (pid_to_id w P) = None" if "?ms = r # rs \<and> wikidata_id r = None" for r rs
    using that by (simp add: res)
  have b: "fst (pid_to_id w P) = None"
    if "rev (remdups (rev (map wikidata_id ?ms))) = None # vs" for vs
  proof -
    have "distinct_first [] (map wikidata_id ?ms) = rev (remdups (rev (map wikidata_id ?ms)))"
      by (simp only: distinct_first_remdups) simp
    with that show ?thesis by (simp add: res)
  qed
  from a b show ?thesis by blast
qed

theorem pid_to_id_keeps_null_witness:
  "fst (pid_to_id null_pid_world ''7'') = None
   \<and> map wikidata_id (filter (\<lambda>r. wikipedia_id r = ''7'') (mapping null_pid_world))
       = [None, Some ''Q1'']
   \<and> fst (title_to_id null_pid_world ''A'' False) = Inr (Some ''Q1'')"
  using pid_to_id_keeps_null [of "''7''" null_pid_world]
  by (simp add: title_to_id_fst select_wikidata_id_by_title_def title_matches_def)

subsection \<open>All four operations\<close>


end
